theory Spec2Isabelle
  imports Main "HOL-Library.Sublist"
begin

section \<open>JSON values and the Python operations the verifier applies to them\<close>

text \<open>
  \<^verbatim>\<open>resp.json()\<close> yields an arbitrary JSON value. An object is the association
  list of its keys as the decoder leaves them (each key once), read with \<open>map_of\<close>;
  numbers are integers (the verifier only tests them for truth).
\<close>

datatype json =
    JNull
  | JBool bool
  | JNum int
  | JStr string
  | JArr "json list"
  | JObj "(string \<times> json) list"

text \<open>The exceptions that can arise inside the \<^verbatim>\<open>try\<close> block of the verifier.\<close>

datatype py_exception =
    TypeError
  | AttributeError
  | KeyError
  | Timeout
  | ConnectionError
  | JSONDecodeError

text \<open>Python truth value of a JSON value (\<^verbatim>\<open>if meta\<close>).\<close>

fun truthy :: "json \<Rightarrow> bool" where
  "truthy JNull = False"
| "truthy (JBool b) = b"
| "truthy (JNum n) = (n \<noteq> 0)"
| "truthy (JStr s) = (s \<noteq> [])"
| "truthy (JArr xs) = (xs \<noteq> [])"
| "truthy (JObj kvs) = (kvs \<noteq> [])"

text \<open>\<^verbatim>\<open>x.get(k, d)\<close>: only a dict has the method.\<close>

fun dict_get :: "json \<Rightarrow> string \<Rightarrow> json \<Rightarrow> py_exception + json" where
  "dict_get (JObj kvs) k d = Inr (case map_of kvs k of None \<Rightarrow> d | Some v \<Rightarrow> v)"
| "dict_get JNull k d = Inl AttributeError"
| "dict_get (JBool b) k d = Inl AttributeError"
| "dict_get (JNum n) k d = Inl AttributeError"
| "dict_get (JStr s) k d = Inl AttributeError"
| "dict_get (JArr xs) k d = Inl AttributeError"

text \<open>\<^verbatim>\<open>x[k]\<close> with a string key.\<close>

fun subscript :: "json \<Rightarrow> string \<Rightarrow> py_exception + json" where
  "subscript (JObj kvs) k = (case map_of kvs k of None \<Rightarrow> Inl KeyError | Some v \<Rightarrow> Inr v)"
| "subscript JNull k = Inl TypeError"
| "subscript (JBool b) k = Inl TypeError"
| "subscript (JNum n) k = Inl TypeError"
| "subscript (JStr s) k = Inl TypeError"
| "subscript (JArr xs) k = Inl TypeError"

text \<open>
  \<^verbatim>\<open>s in x\<close> for a string \<open>s\<close>: element of a list, key of a dict, substring of a
  string, \<^verbatim>\<open>TypeError\<close> on anything else.
\<close>

fun py_in :: "string \<Rightarrow> json \<Rightarrow> py_exception + bool" where
  "py_in s (JArr xs) = Inr (JStr s \<in> set xs)"
| "py_in s (JObj kvs) = Inr (s \<in> fst ` set kvs)"
| "py_in s (JStr t) = Inr (sublist s t)"
| "py_in s JNull = Inl TypeError"
| "py_in s (JBool b) = Inl TypeError"
| "py_in s (JNum n) = Inl TypeError"

text \<open>Sequencing of steps that may raise.\<close>

fun raising :: "'e + 'a \<Rightarrow> ('a \<Rightarrow> 'e + 'b) \<Rightarrow> 'e + 'b" where
  "raising (Inl e) f = Inl e"
| "raising (Inr x) f = f x"

section \<open>The ledger verifier\<close>

text \<open>
  What \<^verbatim>\<open>requests.post(endpoint, json=payload, timeout=10)\<close> followed by
  \<^verbatim>\<open>resp.json()\<close> does: it raises, or it yields the decoded body. The ledger is a
  function from the endpoint and the signature (the only varying part of the payload).
\<close>

datatype rpc_outcome = Raises py_exception | Responds json

type_synonym ledger = "string \<Rightarrow> string \<Rightarrow> rpc_outcome"

definition NETWORK_ENDPOINTS :: "(string \<times> string) list" where
  "NETWORK_ENDPOINTS =
     [(''devnet'', ''https://api.devnet.solana.com''),
      (''testnet'', ''https://api.testnet.solana.com''),
      (''mainnet-beta'', ''https://api.mainnet-beta.solana.com'')]"

definition endpoint_of :: "string \<Rightarrow> string" where
  "endpoint_of network =
     (case map_of NETWORK_ENDPOINTS network of
        Some url \<Rightarrow> url
      | None \<Rightarrow> ''https://api.devnet.solana.com'')"

text \<open>\<^verbatim>\<open>if expected and expected not in account_keys: return False\<close>; the result is
  whether the function returns \<open>False\<close> here.\<close>

definition absent :: "string option \<Rightarrow> json \<Rightarrow> py_exception + bool" where
  "absent expected account_keys =
     (case expected of
        None \<Rightarrow> Inr False
      | Some a \<Rightarrow>
          if a = [] then Inr False
          else raising (py_in a account_keys) (\<lambda>found. Inr (\<not> found)))"

text \<open>Lines 89 to 91: the account keys of a fetched transaction, with the defaults of
  the three \<^verbatim>\<open>get\<close> calls.\<close>

definition account_keys_of :: "json \<Rightarrow> py_exception + json" where
  "account_keys_of result =
     raising (dict_get result ''transaction'' (JObj [])) (\<lambda>tx.
     raising (dict_get tx ''message'' (JObj [])) (\<lambda>message.
     dict_get message ''accountKeys'' (JArr [])))"

text \<open>Lines 88 to 96: the account presence checks on a fetched transaction.\<close>

definition account_checks :: "json \<Rightarrow> string option \<Rightarrow> string option \<Rightarrow> py_exception + bool" where
  "account_checks result expected_wallet expected_treasury =
     raising (account_keys_of result) (\<lambda>account_keys.
     raising (absent expected_wallet account_keys) (\<lambda>no_wallet.
       if no_wallet then Inr False
       else raising (absent expected_treasury account_keys) (\<lambda>no_treasury.
         if no_treasury then Inr False else Inr True)))"

text \<open>\<^verbatim>\<open>meta and meta.get("err") is not None\<close>.\<close>

definition reports_err :: "json \<Rightarrow> py_exception + bool" where
  "reports_err meta =
     (if truthy meta
      then raising (dict_get meta ''err'' JNull) (\<lambda>err. Inr (err \<noteq> JNull))
      else Inr False)"

text \<open>The body of the \<^verbatim>\<open>try\<close> block, lines 74 to 96.\<close>

definition verify_try :: "rpc_outcome \<Rightarrow> string option \<Rightarrow> string option \<Rightarrow> py_exception + bool" where
  "verify_try outcome expected_wallet expected_treasury =
     (case outcome of
        Raises e \<Rightarrow> Inl e
      | Responds data \<Rightarrow>
          raising (py_in ''result'' data) (\<lambda>has_result.
            if \<not> has_result then Inr False
            else raising (subscript data ''result'') (\<lambda>result.
              if result = JNull then Inr False
              else raising (dict_get result ''meta'' JNull) (\<lambda>meta.
                raising (reports_err meta) (\<lambda>errored.
                  if errored then Inr False
                  else account_checks result expected_wallet expected_treasury)))))"

text \<open>
  The whole function: \<^verbatim>\<open>except Exception: return False\<close> turns every exception of
  the body into \<open>False\<close>. The result type keeps a place for an exception that would
  escape, so that "never raises" is a statement about the function.
\<close>

definition verify_signature_on_chain ::
  "ledger \<Rightarrow> string \<Rightarrow> string \<Rightarrow> string option \<Rightarrow> string option \<Rightarrow> py_exception + bool" where
  "verify_signature_on_chain rpc network tx_signature expected_wallet expected_treasury =
     (let endpoint = endpoint_of network in
      case verify_try (rpc endpoint tx_signature) expected_wallet expected_treasury of
        Inl e \<Rightarrow> Inr False
      | Inr b \<Rightarrow> Inr b)"

section \<open>Documents and collections\<close>

text \<open>
  The fields that both kinds of document carry; \<open>oid\<close> is the store's \<^verbatim>\<open>_id\<close>.
  Timestamps are abstract instants. The entry fee is a natural number: the request model
  admits only \<^verbatim>\<open>entry_fee_lamports >= 0\<close>.
\<close>

record document =
  oid :: nat
  round_id :: string
  created_at :: nat
  updated_at :: nat

record LotteryRound = document +
  is_active :: bool
  entry_fee_lamports :: nat
  treasury_address :: string
  network :: string
  winner_address :: "string option"
  drawn_at :: "nat option"

record Entry = document +
  wallet_address :: string
  tx_signature :: string
  verified :: bool

text \<open>
  The store is the handle \<^verbatim>\<open>db\<close> that the routes import; it is passed to each
  route and returned updated. A collection is the list of its documents in insertion
  order; \<open>next_oid\<close> is the identifier the next \<^verbatim>\<open>insert_one\<close> assigns.
  \<^verbatim>\<open>find\<close> is \<open>filter\<close>, \<^verbatim>\<open>find_one\<close> is \<open>find\<close>, \<^verbatim>\<open>insert_one\<close>
  appends. Every insert of a route follows that route's own lookup of the key, so a
  request served alone behaves the same whether or not the store carries a unique index.
\<close>

record database =
  lotteryround :: "LotteryRound list"
  entry :: "Entry list"
  next_oid :: nat

text \<open>\<^verbatim>\<open>update_one(filter, {"$set": ...})\<close>: the first matching document is changed.\<close>

fun update_one :: "('a \<Rightarrow> bool) \<Rightarrow> ('a \<Rightarrow> 'a) \<Rightarrow> 'a list \<Rightarrow> 'a list" where
  "update_one P f [] = []"
| "update_one P f (x # xs) = (if P x then f x # xs else x # update_one P f xs)"

text \<open>
  What a request reads from outside the store: the ledger, the clock (\<open>now_utc k\<close> is the
  \<open>k\<close>-th reading taken by the request) and the index drawn by \<^verbatim>\<open>random.choice\<close>.
\<close>

record env =
  rpc :: ledger
  now_utc :: "nat \<Rightarrow> nat"
  choice :: nat

datatype error = HTTPException nat string | Unhandled py_exception

section \<open>Routes\<close>

definition get_round :: "database \<Rightarrow> string \<Rightarrow> error + LotteryRound" where
  "get_round db rid =
     (case filter (\<lambda>r. round_id r = rid) (lotteryround db) of
        [] \<Rightarrow> Inl (HTTPException 404 ''Round not found'')
      | r # _ \<Rightarrow> Inr r)"

definition list_entries :: "database \<Rightarrow> string \<Rightarrow> Entry list" where
  "list_entries db rid = filter (\<lambda>e. round_id e = rid) (entry db)"

definition get_round_detail :: "database \<Rightarrow> string \<Rightarrow> error + LotteryRound" where
  "get_round_detail db rid = get_round db rid"

definition get_round_entries :: "database \<Rightarrow> string \<Rightarrow> error + Entry list" where
  "get_round_entries db rid =
     (case get_round db rid of
        Inl err \<Rightarrow> Inl err
      | Inr r \<Rightarrow> Inr (list_entries db rid))"

definition create_round ::
  "env \<Rightarrow> database \<Rightarrow> string \<Rightarrow> nat \<Rightarrow> string \<Rightarrow> string \<Rightarrow> database \<times> (error + LotteryRound)" where
  "create_round ev db rid fee treasury net =
     (case find (\<lambda>r. round_id r = rid) (lotteryround db) of
        Some existing \<Rightarrow> (db, Inl (HTTPException 400 ''round_id already exists''))
      | None \<Rightarrow>
          let doc = \<lparr> oid = next_oid db, round_id = rid,
                      created_at = now_utc ev 0, updated_at = now_utc ev 1,
                      is_active = True, entry_fee_lamports = fee,
                      treasury_address = treasury, network = net,
                      winner_address = None, drawn_at = None \<rparr>
          in (db\<lparr> lotteryround := lotteryround db @ [doc], next_oid := Suc (next_oid db) \<rparr>,
              Inr doc))"

definition enter_round ::
  "env \<Rightarrow> database \<Rightarrow> string \<Rightarrow> string \<Rightarrow> string \<Rightarrow> database \<times> (error + Entry)" where
  "enter_round ev db rid wallet sig =
     (case get_round db rid of
        Inl err \<Rightarrow> (db, Inl err)
      | Inr r \<Rightarrow>
          if \<not> is_active r then (db, Inl (HTTPException 400 ''Round is closed''))
          else
            (case find (\<lambda>e. tx_signature e = sig) (entry db) of
               Some existing \<Rightarrow>
                 (db, Inl (HTTPException 400 ''This transaction was already submitted''))
             | None \<Rightarrow>
                 (case verify_signature_on_chain (rpc ev) (network r) sig
                         (Some wallet) (Some (treasury_address r)) of
                    Inl x \<Rightarrow> (db, Inl (Unhandled x))
                  | Inr v \<Rightarrow>
                      let entry_doc = \<lparr> oid = next_oid db, round_id = rid,
                                        created_at = now_utc ev 0, updated_at = now_utc ev 1,
                                        wallet_address = wallet, tx_signature = sig,
                                        verified = v \<rparr>
                      in (db\<lparr> entry := entry db @ [entry_doc], next_oid := Suc (next_oid db) \<rparr>,
                          Inr entry_doc))))"

definition reverify_entry ::
  "env \<Rightarrow> database \<Rightarrow> string \<Rightarrow> string \<Rightarrow> database \<times> (error + Entry)" where
  "reverify_entry ev db rid sig =
     (case get_round db rid of
        Inl err \<Rightarrow> (db, Inl err)
      | Inr r \<Rightarrow>
          (case find (\<lambda>e. round_id e = rid \<and> tx_signature e = sig) (entry db) of
             None \<Rightarrow> (db, Inl (HTTPException 404 ''Entry not found''))
           | Some found \<Rightarrow>
               (case verify_signature_on_chain (rpc ev) (network r) sig
                       (Some (wallet_address found)) (Some (treasury_address r)) of
                  Inl x \<Rightarrow> (db, Inl (Unhandled x))
                | Inr v \<Rightarrow>
                    let db' = db\<lparr> entry :=
                                update_one (\<lambda>e. oid e = oid found)
                                  (\<lambda>e. e\<lparr> verified := v, updated_at := now_utc ev 0 \<rparr>)
                                  (entry db) \<rparr>
                    in (case find (\<lambda>e. oid e = oid found) (entry db') of
                          None \<Rightarrow> (db', Inl (Unhandled TypeError))
                        | Some again \<Rightarrow> (db', Inr again)))))"

text \<open>\<^verbatim>\<open>random.choice(seq)\<close> on a non-empty list: the element at the drawn index.\<close>

definition random_choice :: "nat \<Rightarrow> 'a list \<Rightarrow> 'a" where
  "random_choice k xs = xs ! (k mod length xs)"

definition draw_winner ::
  "env \<Rightarrow> database \<Rightarrow> string \<Rightarrow> database \<times> (error + LotteryRound \<times> string \<times> string)" where
  "draw_winner ev db rid =
     (case get_round db rid of
        Inl err \<Rightarrow> (db, Inl err)
      | Inr r \<Rightarrow>
          if \<not> is_active r then (db, Inl (HTTPException 400 ''Round already closed''))
          else
            let verified_entries = filter (\<lambda>e. round_id e = rid \<and> verified e) (entry db)
            in if verified_entries = []
               then (db, Inl (HTTPException 400 ''No verified entries to draw from''))
               else
                 let winner = random_choice (choice ev) verified_entries;
                     db' = db\<lparr> lotteryround :=
                             update_one (\<lambda>r. round_id r = rid)
                               (\<lambda>r. r\<lparr> winner_address := Some (wallet_address winner),
                                       drawn_at := Some (now_utc ev 0),
                                       is_active := False,
                                       updated_at := now_utc ev 1 \<rparr>)
                               (lotteryround db) \<rparr>
                 in (case get_round db' rid of
                       Inl err \<Rightarrow> (db', Inl err)
                     | Inr updated \<Rightarrow>
                         (db', Inr (updated, wallet_address winner, tx_signature winner))))"

section \<open>Requests over time\<close>

datatype request =
    CreateRound string nat string string
  | Enter string string string
  | Reverify string string
  | Draw string
  | ListRounds
  | GetRoundDetail string
  | GetRoundEntries string

text \<open>The store after a request has been served, whether it succeeded or failed. The
  three \<^verbatim>\<open>GET\<close> routes only read it (the listing of all rounds, sorted by
  creation time, is not used below and has no definition here).\<close>

fun serve :: "database \<Rightarrow> env \<times> request \<Rightarrow> database" where
  "serve db (ev, CreateRound rid fee treasury net) = fst (create_round ev db rid fee treasury net)"
| "serve db (ev, Enter rid wallet sig) = fst (enter_round ev db rid wallet sig)"
| "serve db (ev, Reverify rid sig) = fst (reverify_entry ev db rid sig)"
| "serve db (ev, Draw rid) = fst (draw_winner ev db rid)"
| "serve db (ev, ListRounds) = db"
| "serve db (ev, GetRoundDetail rid) = db"
| "serve db (ev, GetRoundEntries rid) = db"

definition serve_all :: "database \<Rightarrow> (env \<times> request) list \<Rightarrow> database" where
  "serve_all db reqs = foldl serve db reqs"

section \<open>Properties of rounds and sample data\<close>

text \<open>The invariant of a round document: winner and draw time are set together, and a
  round with a winner is closed.\<close>

definition round_invariant :: "LotteryRound \<Rightarrow> bool" where
  "round_invariant r \<longleftrightarrow>
     (winner_address r = None \<longleftrightarrow> drawn_at r = None)
     \<and> (winner_address r \<noteq> None \<longrightarrow> \<not> is_active r)"

definition rounds_ok :: "database \<Rightarrow> bool" where
  "rounds_ok db \<longleftrightarrow> list_all round_invariant (lotteryround db)"

text \<open>The round exists and is closed, as \<open>get_round\<close> reads it.\<close>

definition closed :: "database \<Rightarrow> string \<Rightarrow> bool" where
  "closed db rid \<longleftrightarrow> (case get_round db rid of Inl err \<Rightarrow> False | Inr r \<Rightarrow> \<not> is_active r)"

text \<open>Entry identifiers are distinct and below the next identifier to be assigned.\<close>

definition entry_ids_ok :: "database \<Rightarrow> bool" where
  "entry_ids_ok db \<longleftrightarrow>
     distinct (map oid (entry db)) \<and> list_all (\<lambda>e. oid e < next_oid db) (entry db)"

text \<open>Concrete inputs on which the theorems below are exercised.\<close>

definition sample_env :: "ledger \<Rightarrow> nat \<Rightarrow> env" where
  "sample_env led k = \<lparr> rpc = led, now_utc = (\<lambda>n. 100 + n), choice = k \<rparr>"

definition sample_round :: "bool \<Rightarrow> LotteryRound" where
  "sample_round act = \<lparr> oid = 0, round_id = ''R-1'', created_at = 1, updated_at = 1,
      is_active = act, entry_fee_lamports = 1000000, treasury_address = ''TREASURY1'',
      network = ''devnet'', winner_address = None, drawn_at = None \<rparr>"

definition sample_entry :: "nat \<Rightarrow> string \<Rightarrow> string \<Rightarrow> bool \<Rightarrow> Entry" where
  "sample_entry i w s v = \<lparr> oid = i, round_id = ''R-1'', created_at = 2, updated_at = 2,
      wallet_address = w, tx_signature = s, verified = v \<rparr>"

definition sample_db :: "Entry list \<Rightarrow> database" where
  "sample_db es = \<lparr> lotteryround = [sample_round True], entry = es, next_oid = 10 \<rparr>"

section \<open>Properties of the ledger verifier\<close>

lemma raising_Inr_iff: "raising m f = Inr y \<longleftrightarrow> (\<exists>x. m = Inr x \<and> f x = Inr y)"
  by (cases m) auto

lemma py_in_dict_Some: "map_of kvs k = Some v \<Longrightarrow> py_in k (JObj kvs) = Inr True"
  by (force dest: map_of_SomeD)

text \<open>
  Claim C6. The verifier never raises to its caller: for every ledger behaviour and every
  argument it returns a boolean. It returns \<open>False\<close> when the query raises (a timeout, a
  transport failure, an undecodable body), when the response has no \<open>result\<close> or a null
  one (transaction not found), and when the fetched transaction's \<open>meta.err\<close> is not null.
\<close>

theorem verifier_never_raises_fail_closed:
  "(\<exists>b. verify_signature_on_chain led net sig w t = Inr b)
   \<and> (led (endpoint_of net) sig = Raises e
        \<longrightarrow> verify_signature_on_chain led net sig w t = Inr False)
   \<and> (led (endpoint_of net) sig = Responds (JObj kvs)
        \<and> map_of kvs ''result'' \<in> {None, Some JNull}
        \<longrightarrow> verify_signature_on_chain led net sig w t = Inr False)
   \<and> (led (endpoint_of net) sig = Responds (JObj kvs)
        \<and> map_of kvs ''result'' = Some (JObj res)
        \<and> map_of res ''meta'' = Some (JObj meta)
        \<and> map_of meta ''err'' = Some err \<and> err \<noteq> JNull
        \<longrightarrow> verify_signature_on_chain led net sig w t = Inr False)"
proof (intro conjI impI)
  show "\<exists>b. verify_signature_on_chain led net sig w t = Inr b"
    by (cases "verify_try (led (endpoint_of net) sig) w t")
       (auto simp: verify_signature_on_chain_def)
next
  assume "led (endpoint_of net) sig = Raises e"
  then show "verify_signature_on_chain led net sig w t = Inr False"
    by (simp add: verify_signature_on_chain_def verify_try_def)
next
  assume "led (endpoint_of net) sig = Responds (JObj kvs)
            \<and> map_of kvs ''result'' \<in> {None, Some JNull}"
  then show "verify_signature_on_chain led net sig w t = Inr False"
    by (auto simp add: verify_signature_on_chain_def verify_try_def map_of_eq_None_iff
          split: sum.split)
next
  assume a: "led (endpoint_of net) sig = Responds (JObj kvs)
        \<and> map_of kvs ''result'' = Some (JObj res)
        \<and> map_of res ''meta'' = Some (JObj meta)
        \<and> map_of meta ''err'' = Some err \<and> err \<noteq> JNull"
  then have "meta \<noteq> []" by auto
  with a show "verify_signature_on_chain led net sig w t = Inr False"
    by (auto simp add: verify_signature_on_chain_def verify_try_def reports_err_def
          split: sum.split)
qed

theorem verifier_never_raises_fail_closed_witness:
  "verify_signature_on_chain (\<lambda>_ _. Raises Timeout)
       ''devnet'' ''SIG1'' (Some ''W1'') (Some ''TREASURY1'') = Inr False
   \<and> verify_signature_on_chain (\<lambda>_ _. Responds (JObj [(''result'', JNull)]))
       ''devnet'' ''SIG1'' (Some ''W1'') (Some ''TREASURY1'') = Inr False
   \<and> verify_signature_on_chain
       (\<lambda>_ _. Responds (JObj [(''result'',
           JObj [(''meta'', JObj [(''err'', JStr ''AccountNotFound'')])])]))
       ''devnet'' ''SIG1'' (Some ''W1'') (Some ''TREASURY1'') = Inr False"
  using verifier_never_raises_fail_closed
          [where led = "\<lambda>_ _. Raises Timeout" and net = "''devnet''" and sig = "''SIG1''"
             and e = Timeout and w = "Some ''W1''" and t = "Some ''TREASURY1''"]
        verifier_never_raises_fail_closed
          [where led = "\<lambda>_ _. Responds (JObj [(''result'', JNull)])"
             and net = "''devnet''" and sig = "''SIG1''"
             and kvs = "[(''result'', JNull)]"
             and w = "Some ''W1''" and t = "Some ''TREASURY1''"]
        verifier_never_raises_fail_closed
          [where led = "\<lambda>_ _. Responds (JObj [(''result'',
                   JObj [(''meta'', JObj [(''err'', JStr ''AccountNotFound'')])])])"
             and net = "''devnet''" and sig = "''SIG1''"
             and kvs = "[(''result'', JObj [(''meta'', JObj [(''err'', JStr ''AccountNotFound'')])])]"
             and res = "[(''meta'', JObj [(''err'', JStr ''AccountNotFound'')])]"
             and meta = "[(''err'', JStr ''AccountNotFound'')]"
             and err = "JStr ''AccountNotFound''"
             and w = "Some ''W1''" and t = "Some ''TREASURY1''"]
  by simp

text \<open>
  Claim C7, as stated, fails: an expected wallet that is supplied but is the empty string
  is skipped by \<^verbatim>\<open>if expected_wallet and ...\<close>, so the verifier returns \<open>True\<close> although
  the empty string is not among the account keys.
\<close>

theorem verifier_empty_wallet_counterexample:
  "verify_signature_on_chain
     (\<lambda>_ _. Responds (JObj [(''result'', JObj [(''transaction'', JObj [(''message'',
         JObj [(''accountKeys'', JArr [JStr ''TREASURY1''])])])])]))
     ''devnet'' ''SIG1'' (Some '''') (Some ''TREASURY1'') = Inr True
   \<and> JStr '''' \<notin> set [JStr ''TREASURY1'']"
  by (simp add: verify_signature_on_chain_def verify_try_def reports_err_def
        account_checks_def account_keys_of_def absent_def)

text \<open>
  Claim C7, amended. When both expected addresses are supplied and non-empty, the verifier
  returns \<open>True\<close> only if Python's \<^verbatim>\<open>in\<close> finds both literal strings in the
  transaction's \<open>accountKeys\<close>; when \<open>accountKeys\<close> is a JSON array this is membership
  of the exact string, with no normalisation or case folding.
\<close>

theorem verifier_requires_both_accounts:
  assumes "verify_signature_on_chain led net sig (Some w) (Some t) = Inr True"
    and "w \<noteq> []" and "t \<noteq> []"
  shows "\<exists>kvs result keys.
           led (endpoint_of net) sig = Responds (JObj kvs)
         \<and> map_of kvs ''result'' = Some result
         \<and> account_keys_of result = Inr keys
         \<and> py_in w keys = Inr True \<and> py_in t keys = Inr True
         \<and> (\<forall>ks. keys = JArr ks \<longrightarrow> JStr w \<in> set ks \<and> JStr t \<in> set ks)"
proof -
  let ?out = "led (endpoint_of net) sig"
  from assms(1) have vt: "verify_try ?out (Some w) (Some t) = Inr True"
    by (auto simp: verify_signature_on_chain_def split: sum.splits)
  then obtain data where out: "?out = Responds data"
    by (cases ?out) (auto simp: verify_try_def)
  from vt out obtain result where
    sub: "subscript data ''result'' = Inr result" and
    ac: "account_checks result (Some w) (Some t) = Inr True"
    by (auto simp: verify_try_def raising_Inr_iff split: if_splits)
  from sub obtain kvs where data: "data = JObj kvs" and res: "map_of kvs ''result'' = Some result"
    by (cases data) (auto split: option.splits)
  from ac assms(2,3) obtain keys where
    keys: "account_keys_of result = Inr keys" and
    inw: "py_in w keys = Inr True" and int: "py_in t keys = Inr True"
    by (auto simp: account_checks_def absent_def raising_Inr_iff split: if_splits)
  have "\<forall>ks. keys = JArr ks \<longrightarrow> JStr w \<in> set ks \<and> JStr t \<in> set ks"
    using inw int by auto
  with out data res keys inw int show ?thesis by blast
qed

theorem verifier_requires_both_accounts_witness:
  "verify_signature_on_chain
     (\<lambda>_ _. Responds (JObj [(''result'', JObj [(''transaction'', JObj [(''message'',
         JObj [(''accountKeys'', JArr [JStr ''W1'', JStr ''TREASURY1''])])])])]))
     ''devnet'' ''SIG1'' (Some ''W1'') (Some ''TREASURY1'') = Inr True
   \<and> ''W1'' \<noteq> [] \<and> ''TREASURY1'' \<noteq> []
   \<and> (\<exists>keys.
         account_keys_of (JObj [(''transaction'', JObj [(''message'',
           JObj [(''accountKeys'', JArr [JStr ''W1'', JStr ''TREASURY1''])])])]) = Inr keys
       \<and> py_in ''W1'' keys = Inr True \<and> py_in ''TREASURY1'' keys = Inr True
       \<and> (\<forall>ks. keys = JArr ks \<longrightarrow> JStr ''W1'' \<in> set ks \<and> JStr ''TREASURY1'' \<in> set ks))"
proof -
  have h: "verify_signature_on_chain
     (\<lambda>_ _. Responds (JObj [(''result'', JObj [(''transaction'', JObj [(''message'',
         JObj [(''accountKeys'', JArr [JStr ''W1'', JStr ''TREASURY1''])])])])]))
     ''devnet'' ''SIG1'' (Some ''W1'') (Some ''TREASURY1'') = Inr True"
    by (simp add: verify_signature_on_chain_def verify_try_def reports_err_def
          account_checks_def account_keys_of_def absent_def)
  have w: "''W1'' \<noteq> []" and t: "''TREASURY1'' \<noteq> []" by simp_all
  from verifier_requires_both_accounts [OF h w t] h show ?thesis
    by auto
qed

text \<open>
  Claim C10. When the response has a \<open>result\<close> object without a \<open>meta\<close> field, or with
  a null one, the execution-error test is skipped and the verdict is that of the account
  presence checks alone; the witness is such a response on which the verdict is \<open>True\<close>.
\<close>

theorem verifier_missing_meta_skips_err_check:
  assumes "led (endpoint_of net) sig = Responds (JObj kvs)"
    and "map_of kvs ''result'' = Some (JObj res)"
    and "map_of res ''meta'' = None \<or> map_of res ''meta'' = Some JNull"
  shows "reports_err (case map_of res ''meta'' of None \<Rightarrow> JNull | Some m \<Rightarrow> m) = Inr False
       \<and> verify_signature_on_chain led net sig w t =
           Inr (case account_checks (JObj res) w t of Inl e \<Rightarrow> False | Inr b \<Rightarrow> b)"
proof -
  have skip: "reports_err (case map_of res ''meta'' of None \<Rightarrow> JNull | Some m \<Rightarrow> m) = Inr False"
    using assms(3) by (auto simp: reports_err_def)
  then have "verify_try (led (endpoint_of net) sig) w t = account_checks (JObj res) w t"
    using assms(1,2) by (simp add: verify_try_def py_in_dict_Some del: py_in.simps)
  then have "verify_signature_on_chain led net sig w t =
           Inr (case account_checks (JObj res) w t of Inl e \<Rightarrow> False | Inr b \<Rightarrow> b)"
    by (simp add: verify_signature_on_chain_def split: sum.split)
  with skip show ?thesis by simp
qed

theorem verifier_missing_meta_skips_err_check_witness:
  "verify_signature_on_chain
     (\<lambda>_ _. Responds (JObj [(''result'', JObj [(''transaction'', JObj [(''message'',
         JObj [(''accountKeys'', JArr [JStr ''W1'', JStr ''TREASURY1''])])])])]))
     ''devnet'' ''SIG1'' (Some ''W1'') (Some ''TREASURY1'') = Inr True"
  using verifier_missing_meta_skips_err_check
      [where led = "\<lambda>_ _. Responds (JObj [(''result'', JObj [(''transaction'', JObj [(''message'',
         JObj [(''accountKeys'', JArr [JStr ''W1'', JStr ''TREASURY1''])])])])])"
        and net = "''devnet''" and sig = "''SIG1''"
        and w = "Some ''W1''" and t = "Some ''TREASURY1''"
        and kvs = "[(''result'', JObj [(''transaction'', JObj [(''message'',
         JObj [(''accountKeys'', JArr [JStr ''W1'', JStr ''TREASURY1''])])])])]"
        and res = "[(''transaction'', JObj [(''message'',
         JObj [(''accountKeys'', JArr [JStr ''W1'', JStr ''TREASURY1''])])])]"]
  by (simp add: account_checks_def account_keys_of_def absent_def)

section \<open>Entry submission\<close>

text \<open>
  Claim C4. A submission to an existing, open round whose \<open>tx_signature\<close> is already
  carried by any stored entry (of any round, verified or not) fails with the duplicate
  error (status 400, the spec's \<open>Conflict\<close>) and leaves the store as it was.
\<close>

theorem enter_round_duplicate_signature_conflict:
  assumes "get_round db rid = Inr r" and "is_active r"
    and "e \<in> set (entry db)" and "tx_signature e = sig"
  shows "enter_round ev db rid wallet sig =
           (db, Inl (HTTPException 400 ''This transaction was already submitted''))"
proof -
  have "find (\<lambda>x. tx_signature x = sig) (entry db) \<noteq> None"
    using assms(3,4) by (auto simp: find_None_iff)
  then obtain x where "find (\<lambda>x. tx_signature x = sig) (entry db) = Some x" by auto
  with assms(1,2) show ?thesis by (simp add: enter_round_def)
qed

theorem enter_round_duplicate_signature_conflict_witness:
  "enter_round (sample_env (\<lambda>_ _. Raises Timeout) 0)
       (sample_db [sample_entry 1 ''W1'' ''SIG1'' False]) ''R-1'' ''W2'' ''SIG1''
     = (sample_db [sample_entry 1 ''W1'' ''SIG1'' False],
        Inl (HTTPException 400 ''This transaction was already submitted''))"
proof -
  have 1: "get_round (sample_db [sample_entry 1 ''W1'' ''SIG1'' False]) ''R-1''
             = Inr (sample_round True)"
    by (simp add: get_round_def sample_db_def sample_round_def)
  have 2: "is_active (sample_round True)" by (simp add: sample_round_def)
  have 3: "sample_entry 1 ''W1'' ''SIG1'' False
             \<in> set (entry (sample_db [sample_entry 1 ''W1'' ''SIG1'' False]))"
    by (simp add: sample_db_def)
  have 4: "tx_signature (sample_entry 1 ''W1'' ''SIG1'' False) = ''SIG1''"
    by (simp add: sample_entry_def)
  show ?thesis by (rule enter_round_duplicate_signature_conflict [OF 1 2 3 4])
qed

text \<open>
  Claim C5. A submission to an existing, open round with a signature that no stored entry
  carries succeeds: the verifier returns a boolean \<open>v\<close>, and the entry appended to the
  store and returned to the caller has \<open>verified = v\<close>, whether \<open>v\<close> is true or false.
\<close>

theorem enter_round_stores_verdict:
  assumes "get_round db rid = Inr r" and "is_active r"
    and "\<forall>e \<in> set (entry db). tx_signature e \<noteq> sig"
  shows "\<exists>v. verify_signature_on_chain (rpc ev) (network r) sig
                (Some wallet) (Some (treasury_address r)) = Inr v
           \<and> enter_round ev db rid wallet sig =
               (db\<lparr> entry := entry db @
                      [\<lparr> oid = next_oid db, round_id = rid,
                         created_at = now_utc ev 0, updated_at = now_utc ev 1,
                         wallet_address = wallet, tx_signature = sig, verified = v \<rparr>],
                    next_oid := Suc (next_oid db) \<rparr>,
                Inr \<lparr> oid = next_oid db, round_id = rid,
                      created_at = now_utc ev 0, updated_at = now_utc ev 1,
                      wallet_address = wallet, tx_signature = sig, verified = v \<rparr>)"
proof -
  have nf: "find (\<lambda>x. tx_signature x = sig) (entry db) = None"
    using assms(3) by (auto simp: find_None_iff)
  obtain v where v: "verify_signature_on_chain (rpc ev) (network r) sig
                (Some wallet) (Some (treasury_address r)) = Inr v"
    by (cases "verify_try (rpc ev (endpoint_of (network r)) sig)
                 (Some wallet) (Some (treasury_address r))")
       (auto simp: verify_signature_on_chain_def)
  with assms(1,2) nf show ?thesis by (simp add: enter_round_def Let_def)
qed

theorem enter_round_stores_verdict_witness:
  "enter_round (sample_env (\<lambda>_ _. Responds (JObj [(''result'', JNull)])) 0)
       (sample_db []) ''R-1'' ''W1'' ''SIG1''
     = (\<lparr> lotteryround = [sample_round True],
          entry = [\<lparr> oid = 10, round_id = ''R-1'', created_at = 100, updated_at = 101,
                     wallet_address = ''W1'', tx_signature = ''SIG1'', verified = False \<rparr>],
          next_oid = 11 \<rparr>,
        Inr \<lparr> oid = 10, round_id = ''R-1'', created_at = 100, updated_at = 101,
              wallet_address = ''W1'', tx_signature = ''SIG1'', verified = False \<rparr>)"
proof -
  let ?ev = "sample_env (\<lambda>_ _. Responds (JObj [(''result'', JNull)])) 0"
  have 1: "get_round (sample_db []) ''R-1'' = Inr (sample_round True)"
    by (simp add: get_round_def sample_db_def sample_round_def)
  have 2: "is_active (sample_round True)" by (simp add: sample_round_def)
  have 3: "\<forall>e \<in> set (entry (sample_db [])). tx_signature e \<noteq> ''SIG1''"
    by (simp add: sample_db_def)
  have 4: "verify_signature_on_chain (rpc ?ev) (network (sample_round True)) ''SIG1''
             (Some ''W1'') (Some (treasury_address (sample_round True))) = Inr False"
    by (simp add: verify_signature_on_chain_def verify_try_def sample_env_def)
  from enter_round_stores_verdict [OF 1 2 3, of ?ev "''W1''"] 4 show ?thesis
    by (auto simp: sample_db_def sample_env_def)
qed

section \<open>The draw\<close>

lemma random_choice_mem: "xs \<noteq> [] \<Longrightarrow> random_choice k xs \<in> set xs"
  by (simp add: random_choice_def)

text \<open>
  Claim C1. A successful draw returns the wallet and signature of a stored entry of that
  round with \<open>verified = True\<close>. When the round has no verified entry the draw fails and
  changes nothing; for an existing open round the failure is the "no verified entries"
  error (status 400, the spec's \<open>NoEligibleEntries\<close>).
\<close>

theorem draw_winner_picks_verified_entry:
  "(draw_winner ev db rid = (db', Inr (updated, w, s))
      \<longrightarrow> (\<exists>e \<in> set (entry db). round_id e = rid \<and> verified e
             \<and> wallet_address e = w \<and> tx_signature e = s))
   \<and> ((\<forall>e \<in> set (entry db). round_id e = rid \<longrightarrow> \<not> verified e)
      \<longrightarrow> (\<exists>err. draw_winner ev db rid = (db, Inl err))
        \<and> (\<forall>r. get_round db rid = Inr r \<and> is_active r \<longrightarrow>
             draw_winner ev db rid =
               (db, Inl (HTTPException 400 ''No verified entries to draw from''))))"
proof (intro conjI impI)
  assume a: "draw_winner ev db rid = (db', Inr (updated, w, s))"
  let ?vs = "filter (\<lambda>e. round_id e = rid \<and> verified e) (entry db)"
  let ?win = "random_choice (choice ev) ?vs"
  from a have ne: "?vs \<noteq> []" and w: "w = wallet_address ?win" and s: "s = tx_signature ?win"
    by (auto simp: draw_winner_def Let_def split: sum.splits if_splits)
  from ne have "?win \<in> set ?vs"
    by (rule random_choice_mem)
  with w s show "\<exists>e \<in> set (entry db). round_id e = rid \<and> verified e
             \<and> wallet_address e = w \<and> tx_signature e = s"
    by auto
next
  assume a: "\<forall>e \<in> set (entry db). round_id e = rid \<longrightarrow> \<not> verified e"
  then have e: "filter (\<lambda>e. round_id e = rid \<and> verified e) (entry db) = []"
    by (auto simp: filter_empty_conv)
  then show "\<exists>err. draw_winner ev db rid = (db, Inl err)"
    by (simp add: draw_winner_def split: sum.splits)
  from e show "\<forall>r. get_round db rid = Inr r \<and> is_active r \<longrightarrow>
             draw_winner ev db rid =
               (db, Inl (HTTPException 400 ''No verified entries to draw from''))"
    by (simp add: draw_winner_def)
qed

theorem draw_winner_picks_verified_entry_witness:
  "(\<exists>e \<in> set [sample_entry 1 ''W1'' ''SIG1'' False, sample_entry 2 ''W2'' ''SIG2'' True].
       round_id e = ''R-1'' \<and> verified e \<and> wallet_address e = ''W2'' \<and> tx_signature e = ''SIG2'')
   \<and> draw_winner (sample_env (\<lambda>_ _. Raises Timeout) 7)
        (sample_db [sample_entry 1 ''W1'' ''SIG1'' False]) ''R-1''
      = (sample_db [sample_entry 1 ''W1'' ''SIG1'' False],
         Inl (HTTPException 400 ''No verified entries to draw from''))"
proof -
  let ?ev = "sample_env (\<lambda>_ _. Raises Timeout) 7"
  let ?db1 = "sample_db [sample_entry 1 ''W1'' ''SIG1'' False, sample_entry 2 ''W2'' ''SIG2'' True]"
  let ?db0 = "sample_db [sample_entry 1 ''W1'' ''SIG1'' False]"
  let ?upd = "(sample_round False)\<lparr> winner_address := Some ''W2'', drawn_at := Some 100,
                 updated_at := 101 \<rparr>"
  have h: "draw_winner ?ev ?db1 ''R-1'' =
             (?db1\<lparr> lotteryround := [?upd] \<rparr>, Inr (?upd, ''W2'', ''SIG2''))"
    by (simp add: draw_winner_def get_round_def sample_db_def sample_round_def
          sample_entry_def sample_env_def random_choice_def Let_def)
  have a: "\<exists>e \<in> set (entry ?db1). round_id e = ''R-1'' \<and> verified e
             \<and> wallet_address e = ''W2'' \<and> tx_signature e = ''SIG2''"
    using draw_winner_picks_verified_entry [of ?ev ?db1 "''R-1''"] h by blast
  have u: "\<forall>e \<in> set (entry ?db0). round_id e = ''R-1'' \<longrightarrow> \<not> verified e"
    by (simp add: sample_db_def sample_entry_def)
  have g: "get_round ?db0 ''R-1'' = Inr (sample_round True) \<and> is_active (sample_round True)"
    by (simp add: get_round_def sample_db_def sample_round_def)
  have b: "draw_winner ?ev ?db0 ''R-1'' =
             (?db0, Inl (HTTPException 400 ''No verified entries to draw from''))"
    using draw_winner_picks_verified_entry [of ?ev ?db0 "''R-1''"] u g by blast
  from a b show ?thesis by (simp add: sample_db_def)
qed

section \<open>The life of a round\<close>


lemma filter_update_one_same:
  assumes "\<And>x. P (f x) = P x"
  shows "filter P (update_one P f xs) = (case filter P xs of [] \<Rightarrow> [] | y # ys \<Rightarrow> f y # ys)"
  using assms by (induction xs) auto

lemma filter_update_one_other:
  assumes "\<And>x. P x \<Longrightarrow> \<not> Q x \<and> \<not> Q (f x)"
  shows "filter Q (update_one P f xs) = filter Q xs"
  using assms by (induction xs) auto

lemma lotteryround_enter: "lotteryround (fst (enter_round ev db rid w s)) = lotteryround db"
  by (simp add: enter_round_def Let_def split: sum.split option.split)

lemma lotteryround_reverify: "lotteryround (fst (reverify_entry ev db rid s)) = lotteryround db"
  by (simp add: reverify_entry_def Let_def split: sum.split option.split)

lemma closed_enter: "closed (fst (enter_round ev db rid' w s)) rid = closed db rid"
  by (simp add: closed_def get_round_def lotteryround_enter)

lemma closed_reverify: "closed (fst (reverify_entry ev db rid' s)) rid = closed db rid"
  by (simp add: closed_def get_round_def lotteryround_reverify)

lemma closed_create: "closed db rid \<Longrightarrow> closed (fst (create_round ev db rid' fee tr net)) rid"
  by (auto simp: closed_def get_round_def create_round_def Let_def
        split: option.splits list.splits sum.splits)

lemma draw_closed_fails:
  "closed db rid \<Longrightarrow> draw_winner ev db rid = (db, Inl (HTTPException 400 ''Round already closed''))"
  by (auto simp: closed_def draw_winner_def split: sum.splits)


lemma draw_success_closes:
  assumes "draw_winner ev db rid = (db', Inr res)"
  shows "closed db' rid"
proof -
  let ?f = "\<lambda>r::LotteryRound. r\<lparr> winner_address := Some (wallet_address (random_choice (choice ev)
                 (filter (\<lambda>e. round_id e = rid \<and> verified e) (entry db)))),
               drawn_at := Some (now_utc ev 0), is_active := False, updated_at := now_utc ev 1 \<rparr>"
  from assms have db': "lotteryround db' = update_one (\<lambda>r. round_id r = rid) ?f (lotteryround db)"
    by (auto simp: draw_winner_def Let_def split: sum.splits if_splits)
  from assms obtain r where "get_round db rid = Inr r"
    by (auto simp: draw_winner_def split: sum.splits)
  then obtain rs where f: "filter (\<lambda>r. round_id r = rid) (lotteryround db) = r # rs"
    by (auto simp: get_round_def split: list.splits)
  have "filter (\<lambda>r. round_id r = rid) (lotteryround db') = ?f r # rs"
    unfolding db' by (subst filter_update_one_same) (simp_all add: f)
  then show ?thesis by (simp add: closed_def get_round_def)
qed

lemma closed_draw:
  assumes "closed db rid"
  shows "closed (fst (draw_winner ev db rid')) rid"
proof (cases "rid' = rid")
  case True
  with assms show ?thesis by (simp add: draw_closed_fails)
next
  case False
  have "filter (\<lambda>r. round_id r = rid) (lotteryround (fst (draw_winner ev db rid')))
        = filter (\<lambda>r. round_id r = rid) (lotteryround db)"
    using False
    by (auto simp: draw_winner_def Let_def filter_update_one_other split: sum.splits)
  with assms show ?thesis by (simp add: closed_def get_round_def)
qed

lemma closed_serve: "closed db rid \<Longrightarrow> closed (serve db q) rid"
proof -
  assume c: "closed db rid"
  obtain ev rq where q: "q = (ev, rq)" by (cases q)
  show ?thesis
    using c unfolding q
    by (cases rq) (simp_all add: closed_create closed_draw closed_enter closed_reverify)
qed

lemma closed_serve_all: "closed db rid \<Longrightarrow> closed (serve_all db reqs) rid"
  unfolding serve_all_def
  by (induction reqs arbitrary: db) (simp_all add: closed_serve)

text \<open>
  Claim C2. After a successful draw on a round, whatever requests are served afterwards
  (with any ledger, clock and random index), the round is still read as closed, and every
  further draw on it fails with the "already closed" error (status 400, the spec's
  \<open>InvalidState\<close>) and changes nothing.
\<close>

theorem drawn_round_stays_closed:
  assumes "draw_winner ev db rid = (db1, Inr res)"
  shows "(\<exists>r. get_round (serve_all db1 reqs) rid = Inr r \<and> \<not> is_active r)
       \<and> draw_winner ev' (serve_all db1 reqs) rid =
           (serve_all db1 reqs, Inl (HTTPException 400 ''Round already closed''))"
proof -
  have c: "closed (serve_all db1 reqs) rid"
    using assms by (intro closed_serve_all draw_success_closes)
  then have "\<exists>r. get_round (serve_all db1 reqs) rid = Inr r \<and> \<not> is_active r"
    by (auto simp: closed_def split: sum.splits)
  with c show ?thesis by (simp add: draw_closed_fails)
qed


theorem drawn_round_stays_closed_witness:
  "draw_winner (sample_env (\<lambda>_ _. Raises Timeout) 0)
       (sample_db [sample_entry 1 ''W1'' ''SIG1'' True]) ''R-1''
     = (\<lparr> lotteryround = [(sample_round False)\<lparr> winner_address := Some ''W1'',
                              drawn_at := Some 100, updated_at := 101 \<rparr>],
          entry = [sample_entry 1 ''W1'' ''SIG1'' True], next_oid = 10 \<rparr>,
        Inr ((sample_round False)\<lparr> winner_address := Some ''W1'',
                              drawn_at := Some 100, updated_at := 101 \<rparr>, ''W1'', ''SIG1''))
   \<and> draw_winner (sample_env (\<lambda>_ _. Raises Timeout) 3)
       (serve_all \<lparr> lotteryround = [(sample_round False)\<lparr> winner_address := Some ''W1'',
                              drawn_at := Some 100, updated_at := 101 \<rparr>],
          entry = [sample_entry 1 ''W1'' ''SIG1'' True], next_oid = 10 \<rparr>
          [(sample_env (\<lambda>_ _. Raises Timeout) 0, Enter ''R-1'' ''W2'' ''SIG2''),
           (sample_env (\<lambda>_ _. Raises Timeout) 0, CreateRound ''R-1'' 5 ''TREASURY2'' ''testnet'')])
       ''R-1''
     = (\<lparr> lotteryround = [(sample_round False)\<lparr> winner_address := Some ''W1'',
                              drawn_at := Some 100, updated_at := 101 \<rparr>],
          entry = [sample_entry 1 ''W1'' ''SIG1'' True], next_oid = 10 \<rparr>,
        Inl (HTTPException 400 ''Round already closed''))"
proof -
  let ?ev = "sample_env (\<lambda>_ _. Raises Timeout) 0"
  let ?upd = "(sample_round False)\<lparr> winner_address := Some ''W1'',
                              drawn_at := Some 100, updated_at := 101 \<rparr>"
  let ?db1 = "\<lparr> lotteryround = [?upd],
          entry = [sample_entry 1 ''W1'' ''SIG1'' True], next_oid = 10 \<rparr>"
  let ?reqs = "[(?ev, Enter ''R-1'' ''W2'' ''SIG2''),
           (?ev, CreateRound ''R-1'' 5 ''TREASURY2'' ''testnet'')]"
  have h: "draw_winner ?ev (sample_db [sample_entry 1 ''W1'' ''SIG1'' True]) ''R-1''
             = (?db1, Inr (?upd, ''W1'', ''SIG1''))"
    by (simp add: draw_winner_def get_round_def sample_db_def sample_round_def
          sample_entry_def sample_env_def random_choice_def Let_def)
  have s: "serve_all ?db1 ?reqs = ?db1"
    by (simp add: serve_all_def enter_round_def create_round_def get_round_def
          sample_round_def sample_env_def)
  from drawn_round_stays_closed [OF h, of ?reqs "sample_env (\<lambda>_ _. Raises Timeout) 3"] h s
  show ?thesis by simp
qed

lemma list_all_update_one:
  "list_all Q xs \<Longrightarrow> (\<And>x. Q (f x)) \<Longrightarrow> list_all Q (update_one P f xs)"
  by (induction xs) auto

lemma rounds_ok_serve:
  assumes "rounds_ok db"
  shows "rounds_ok (serve db (ev, rq))"
proof (cases rq)
  case (CreateRound rid fee tr net)
  with assms show ?thesis
    by (auto simp: rounds_ok_def create_round_def Let_def round_invariant_def
          split: option.splits)
next
  case (Enter rid w s)
  with assms show ?thesis by (simp add: rounds_ok_def lotteryround_enter)
next
  case (Reverify rid s)
  with assms show ?thesis by (simp add: rounds_ok_def lotteryround_reverify)
next
  case (Draw rid)
  with assms show ?thesis
    by (auto simp: rounds_ok_def draw_winner_def Let_def round_invariant_def
          intro!: list_all_update_one split: sum.splits)
qed (use assms in simp_all)

lemma prefix_serve:
  assumes "\<forall>rid. rq \<noteq> Draw rid"
  shows "prefix (lotteryround db) (lotteryround (serve db (ev, rq)))"
proof (cases rq)
  case (CreateRound rid fee tr net)
  then show ?thesis
    by (auto simp: create_round_def Let_def split: option.splits)
next
  case (Enter rid w s)
  then show ?thesis by (simp add: lotteryround_enter)
next
  case (Reverify rid s)
  then show ?thesis by (simp add: lotteryround_reverify)
next
  case (Draw rid)
  with assms show ?thesis by simp
qed simp_all

lemma draw_success_update:
  assumes "draw_winner ev db rid = (db', Inr (updated, w, s))"
  shows "winner_address updated = Some w \<and> drawn_at updated = Some (now_utc ev 0)
       \<and> \<not> is_active updated
       \<and> db' = db\<lparr> lotteryround := update_one (\<lambda>r. round_id r = rid)
               (\<lambda>r. r\<lparr> winner_address := Some w, drawn_at := Some (now_utc ev 0),
                       is_active := False, updated_at := now_utc ev 1 \<rparr>)
               (lotteryround db) \<rparr>"
proof -
  let ?win = "random_choice (choice ev) (filter (\<lambda>e. round_id e = rid \<and> verified e) (entry db))"
  let ?f = "\<lambda>r::LotteryRound. r\<lparr> winner_address := Some (wallet_address ?win),
               drawn_at := Some (now_utc ev 0), is_active := False, updated_at := now_utc ev 1 \<rparr>"
  from assms have w: "w = wallet_address ?win"
    and db': "db' = db\<lparr> lotteryround := update_one (\<lambda>r. round_id r = rid) ?f (lotteryround db) \<rparr>"
    and g: "get_round db' rid = Inr updated"
    by (auto simp: draw_winner_def Let_def split: sum.splits if_splits)
  from assms obtain r where "get_round db rid = Inr r"
    by (auto simp: draw_winner_def split: sum.splits)
  then obtain rs where f: "filter (\<lambda>r. round_id r = rid) (lotteryround db) = r # rs"
    by (auto simp: get_round_def split: list.splits)
  have "filter (\<lambda>r. round_id r = rid) (lotteryround db') = ?f r # rs"
    unfolding db' by (simp add: filter_update_one_same f)
  with g have "updated = ?f r" by (simp add: get_round_def)
  with w db' show ?thesis by simp
qed

lemma get_round_update_one:
  assumes "get_round db rid = Inr r" and "\<And>x. round_id (f x) = round_id x"
  shows "get_round (db\<lparr> lotteryround := update_one (\<lambda>r. round_id r = rid) f (lotteryround db) \<rparr>) rid
           = Inr (f r)"
proof -
  from assms(1) obtain rs where f: "filter (\<lambda>r. round_id r = rid) (lotteryround db) = r # rs"
    by (auto simp: get_round_def split: list.splits)
  have "filter (\<lambda>r. round_id r = rid) (update_one (\<lambda>r. round_id r = rid) f (lotteryround db))
          = f r # rs"
    by (simp add: filter_update_one_same assms(2) f)
  then show ?thesis by (simp add: get_round_def)
qed

lemma draw_failure_unchanged:
  assumes "draw_winner ev db rid = (db', Inl err)"
  shows "db' = db"
proof (cases "get_round db rid")
  case (Inl e)
  with assms show ?thesis by (simp add: draw_winner_def)
next
  case (Inr r)
  let ?vs = "filter (\<lambda>e. round_id e = rid \<and> verified e) (entry db)"
  show ?thesis
  proof (cases "\<not> is_active r \<or> ?vs = []")
    case True
    with assms Inr show ?thesis by (auto simp: draw_winner_def Let_def split: if_splits)
  next
    case False
    with assms Inr show ?thesis
      by (simp add: draw_winner_def Let_def get_round_update_one)
  qed
qed

text \<open>
  Claim C3. Every request preserves the round invariant on all stored rounds. Creation
  stores a round with no winner, no draw time and \<open>is_active = True\<close>. A request
  other than a draw leaves every stored round as it was (at most a new round is appended).
  A successful draw sets winner, draw time and \<open>is_active = False\<close> in one update of
  the round; a failed draw changes nothing.
\<close>

theorem round_invariant_preserved:
  "(rounds_ok db \<longrightarrow> rounds_ok (serve db (ev, rq)))
   \<and> (create_round ev db rid fee tr net = (db', Inr doc)
        \<longrightarrow> winner_address doc = None \<and> drawn_at doc = None \<and> is_active doc
          \<and> round_invariant doc \<and> lotteryround db' = lotteryround db @ [doc])
   \<and> ((\<forall>rid. rq \<noteq> Draw rid)
        \<longrightarrow> prefix (lotteryround db) (lotteryround (serve db (ev, rq))))
   \<and> (draw_winner ev db rid = (db', Inr (updated, w, s))
        \<longrightarrow> winner_address updated = Some w \<and> drawn_at updated = Some (now_utc ev 0)
          \<and> \<not> is_active updated
          \<and> db' = db\<lparr> lotteryround := update_one (\<lambda>r. round_id r = rid)
               (\<lambda>r. r\<lparr> winner_address := Some w, drawn_at := Some (now_utc ev 0),
                       is_active := False, updated_at := now_utc ev 1 \<rparr>)
               (lotteryround db) \<rparr>)
   \<and> (draw_winner ev db rid = (db', Inl err) \<longrightarrow> db' = db)"
proof -
  have 1: "rounds_ok db \<longrightarrow> rounds_ok (serve db (ev, rq))"
    by (simp add: rounds_ok_serve)
  have 2: "create_round ev db rid fee tr net = (db', Inr doc)
        \<longrightarrow> winner_address doc = None \<and> drawn_at doc = None \<and> is_active doc
          \<and> round_invariant doc \<and> lotteryround db' = lotteryround db @ [doc]"
    by (auto simp: create_round_def Let_def round_invariant_def split: option.splits)
  have 3: "(\<forall>rid. rq \<noteq> Draw rid)
        \<longrightarrow> prefix (lotteryround db) (lotteryround (serve db (ev, rq)))"
    using prefix_serve by blast
  have 4: "draw_winner ev db rid = (db', Inr (updated, w, s))
        \<longrightarrow> winner_address updated = Some w \<and> drawn_at updated = Some (now_utc ev 0)
          \<and> \<not> is_active updated
          \<and> db' = db\<lparr> lotteryround := update_one (\<lambda>r. round_id r = rid)
               (\<lambda>r. r\<lparr> winner_address := Some w, drawn_at := Some (now_utc ev 0),
                       is_active := False, updated_at := now_utc ev 1 \<rparr>)
               (lotteryround db) \<rparr>"
    using draw_success_update by blast
  have 5: "draw_winner ev db rid = (db', Inl err) \<longrightarrow> db' = db"
    using draw_failure_unchanged by blast
  from 1 2 3 4 5 show ?thesis by blast
qed


theorem round_invariant_preserved_witness:
  "rounds_ok (serve (sample_db [sample_entry 1 ''W1'' ''SIG1'' True])
       (sample_env (\<lambda>_ _. Raises Timeout) 0, Draw ''R-1''))
   \<and> round_invariant \<lparr> oid = 10, round_id = ''R-2'', created_at = 100, updated_at = 101,
        is_active = True, entry_fee_lamports = 5, treasury_address = ''TREASURY2'',
        network = ''testnet'', winner_address = None, drawn_at = None \<rparr>
   \<and> prefix (lotteryround (sample_db [sample_entry 1 ''W1'' ''SIG1'' True]))
       (lotteryround (serve (sample_db [sample_entry 1 ''W1'' ''SIG1'' True])
          (sample_env (\<lambda>_ _. Raises Timeout) 0, Enter ''R-1'' ''W2'' ''SIG2'')))
   \<and> winner_address ((sample_round False)\<lparr> winner_address := Some ''W1'',
          drawn_at := Some 100, updated_at := 101 \<rparr>) = Some ''W1''
   \<and> draw_winner (sample_env (\<lambda>_ _. Raises Timeout) 0) (sample_db []) ''R-1''
       = (sample_db [], Inl (HTTPException 400 ''No verified entries to draw from''))"
proof -
  let ?ev = "sample_env (\<lambda>_ _. Raises Timeout) 0"
  let ?db = "sample_db [sample_entry 1 ''W1'' ''SIG1'' True]"
  let ?upd = "(sample_round False)\<lparr> winner_address := Some ''W1'',
                              drawn_at := Some 100, updated_at := 101 \<rparr>"
  let ?doc = "\<lparr> oid = 10, round_id = ''R-2'', created_at = 100, updated_at = 101,
        is_active = True, entry_fee_lamports = 5, treasury_address = ''TREASURY2'',
        network = ''testnet'', winner_address = None, drawn_at = None \<rparr>"
  have ok: "rounds_ok ?db"
    by (simp add: rounds_ok_def round_invariant_def sample_db_def sample_round_def)
  have cr: "create_round ?ev (sample_db []) ''R-2'' 5 ''TREASURY2'' ''testnet''
              = (\<lparr> lotteryround = [sample_round True, ?doc], entry = [], next_oid = 11 \<rparr>, Inr ?doc)"
    by (simp add: create_round_def sample_db_def sample_round_def sample_env_def Let_def)
  have dr: "draw_winner ?ev ?db ''R-1''
              = (?db\<lparr> lotteryround := [?upd] \<rparr>, Inr (?upd, ''W1'', ''SIG1''))"
    by (simp add: draw_winner_def get_round_def sample_db_def sample_round_def
          sample_entry_def sample_env_def random_choice_def Let_def)
  have fl: "draw_winner ?ev (sample_db []) ''R-1''
       = (sample_db [], Inl (HTTPException 400 ''No verified entries to draw from''))"
    by (simp add: draw_winner_def get_round_def sample_db_def sample_round_def)
  have nd: "\<forall>rid. Enter ''R-1'' ''W2'' ''SIG2'' \<noteq> Draw rid" by simp
  have a: "rounds_ok (serve ?db (?ev, Draw ''R-1''))"
    using round_invariant_preserved [of ?db ?ev "Draw ''R-1''"] ok by blast
  have b: "round_invariant ?doc"
    using round_invariant_preserved [of "sample_db []" ?ev "Draw ''R-1''" "''R-2''" 5 "''TREASURY2''" "''testnet''"] cr
    by blast
  have c: "prefix (lotteryround ?db) (lotteryround (serve ?db (?ev, Enter ''R-1'' ''W2'' ''SIG2'')))"
    using round_invariant_preserved [of ?db ?ev "Enter ''R-1'' ''W2'' ''SIG2''"] nd by blast
  have d: "winner_address ?upd = Some ''W1''"
    using round_invariant_preserved [of ?db ?ev "Draw ''R-1''" "''R-1''"] dr by blast
  from a b c d fl show ?thesis by blast
qed

section \<open>Re-verification\<close>


lemma update_one_index:
  "i < length xs \<Longrightarrow> P (xs ! i) \<Longrightarrow> \<forall>j<i. \<not> P (xs ! j)
     \<Longrightarrow> update_one P f xs = xs[i := f (xs ! i)]"
proof (induction xs arbitrary: i)
  case Nil
  then show ?case by simp
next
  case (Cons x xs)
  show ?case
  proof (cases i)
    case 0
    with Cons.prems show ?thesis by simp
  next
    case (Suc k)
    from Cons.prems(3) Suc have nx: "\<not> P x" by auto
    from Cons.prems Suc have "update_one P f xs = xs[k := f (xs ! k)]"
      by (intro Cons.IH) auto
    with nx Suc show ?thesis by simp
  qed
qed

lemma find_index:
  "i < length xs \<Longrightarrow> P (xs ! i) \<Longrightarrow> \<forall>j<i. \<not> P (xs ! j) \<Longrightarrow> find P xs = Some (xs ! i)"
  by (auto simp: find_Some_iff)

lemma oid_first:
  assumes "distinct (map oid xs)" and "i < length xs"
  shows "\<forall>j<i. oid (xs ! j) \<noteq> oid (xs ! i)"
proof (intro allI impI)
  fix j assume ji: "j < i"
  from assms(1) have "\<forall>a<length (map oid xs). \<forall>b<length (map oid xs).
                        a \<noteq> b \<longrightarrow> map oid xs ! a \<noteq> map oid xs ! b"
    by (simp only: distinct_conv_nth)
  with ji assms(2) have "map oid xs ! j \<noteq> map oid xs ! i" by simp
  with ji assms(2) show "oid (xs ! j) \<noteq> oid (xs ! i)" by simp
qed

lemma reverify_at_index:
  fixes db :: database
  assumes d: "distinct (map oid (entry db))"
    and g: "get_round db rid = Inr r"
    and i: "i < length (entry db)"
    and m: "round_id (entry db ! i) = rid \<and> tx_signature (entry db ! i) = sig"
    and first: "\<forall>j<i. \<not> (round_id (entry db ! j) = rid \<and> tx_signature (entry db ! j) = sig)"
    and v: "verify_signature_on_chain (rpc ev) (network r) sig
              (Some (wallet_address (entry db ! i))) (Some (treasury_address r)) = Inr v"
  shows "reverify_entry ev db rid sig =
           (db\<lparr> entry := (entry db)[i := (entry db ! i)\<lparr> verified := v, updated_at := now_utc ev 0 \<rparr>] \<rparr>,
            Inr ((entry db ! i)\<lparr> verified := v, updated_at := now_utc ev 0 \<rparr>))"
proof -
  let ?xs = "entry db"
  let ?e = "?xs ! i"
  let ?e' = "?e\<lparr> verified := v, updated_at := now_utc ev 0 \<rparr>"
  have f: "find (\<lambda>e. round_id e = rid \<and> tx_signature e = sig) ?xs = Some ?e"
    using i m first by (intro find_index) auto
  have u: "update_one (\<lambda>e. oid e = oid ?e) (\<lambda>e. e\<lparr> verified := v, updated_at := now_utc ev 0 \<rparr>) ?xs
             = ?xs[i := ?e']"
    using i oid_first [OF d i] by (intro update_one_index) auto
  have f2: "find (\<lambda>e. oid e = oid ?e) (?xs[i := ?e']) = Some ?e'"
  proof -
    have "find (\<lambda>e. oid e = oid ?e) (?xs[i := ?e']) = Some ((?xs[i := ?e']) ! i)"
      using i oid_first [OF d i] by (intro find_index) auto
    with i show ?thesis by simp
  qed
  show ?thesis
    by (simp add: reverify_entry_def g f v u f2 Let_def)
qed


lemma reverify_success_index:
  assumes "reverify_entry ev db rid sig = (db1, Inr e1)"
  shows "\<exists>r i v. get_round db rid = Inr r \<and> i < length (entry db)
           \<and> (round_id (entry db ! i) = rid \<and> tx_signature (entry db ! i) = sig)
           \<and> (\<forall>j<i. \<not> (round_id (entry db ! j) = rid \<and> tx_signature (entry db ! j) = sig))
           \<and> verify_signature_on_chain (rpc ev) (network r) sig
                (Some (wallet_address (entry db ! i))) (Some (treasury_address r)) = Inr v"
proof -
  from assms obtain r where g: "get_round db rid = Inr r"
    by (cases "get_round db rid") (auto simp: reverify_entry_def)
  from assms g obtain found where
    f: "find (\<lambda>e. round_id e = rid \<and> tx_signature e = sig) (entry db) = Some found"
    by (cases "find (\<lambda>e. round_id e = rid \<and> tx_signature e = sig) (entry db)")
       (auto simp: reverify_entry_def)
  then obtain i where i: "i < length (entry db)" and fi: "found = entry db ! i"
    and m: "round_id (entry db ! i) = rid \<and> tx_signature (entry db ! i) = sig"
    and first: "\<forall>j<i. \<not> (round_id (entry db ! j) = rid \<and> tx_signature (entry db ! j) = sig)"
    by (auto simp: find_Some_iff)
  obtain v where "verify_signature_on_chain (rpc ev) (network r) sig
                (Some (wallet_address (entry db ! i))) (Some (treasury_address r)) = Inr v"
    by (cases "verify_try (rpc ev (endpoint_of (network r)) sig)
                 (Some (wallet_address (entry db ! i))) (Some (treasury_address r))")
       (auto simp: verify_signature_on_chain_def)
  with g i m first show ?thesis by blast
qed

lemma map_oid_update_one:
  "(\<And>x. oid (f x) = oid x) \<Longrightarrow> map oid (update_one P f xs) = map oid xs"
  by (induction xs) auto

lemma entry_ids_ok_create:
  "entry_ids_ok db \<Longrightarrow> entry_ids_ok (fst (create_round ev db rid fee tr net))"
  by (auto simp: entry_ids_ok_def create_round_def Let_def list_all_iff split: option.splits)

lemma entry_ids_ok_enter:
  "entry_ids_ok db \<Longrightarrow> entry_ids_ok (fst (enter_round ev db rid w s))"
  by (auto simp: entry_ids_ok_def enter_round_def Let_def list_all_iff
        split: option.splits sum.splits)

lemma entry_ids_ok_reverify:
  assumes "entry_ids_ok db"
  shows "entry_ids_ok (fst (reverify_entry ev db rid s))"
proof -
  have m: "\<And>P v t. map oid (update_one P (\<lambda>e::Entry. e\<lparr> verified := v, updated_at := t \<rparr>) (entry db))
             = map oid (entry db)"
    by (rule map_oid_update_one) simp
  have k: "\<And>xs n. list_all (\<lambda>e::Entry. oid e < n) xs \<longleftrightarrow> (\<forall>a \<in> set (map oid xs). a < n)"
    by (auto simp: list_all_iff)
  have "\<And>P v t. entry_ids_ok (db\<lparr> entry := update_one P
              (\<lambda>e. e\<lparr> verified := v, updated_at := t \<rparr>) (entry db) \<rparr>)"
    using assms unfolding entry_ids_ok_def k by (simp add: m)
  then show ?thesis
    using assms
    by (simp add: reverify_entry_def Let_def split: sum.split option.split)
qed

lemma entry_ids_ok_draw:
  "entry_ids_ok db \<Longrightarrow> entry_ids_ok (fst (draw_winner ev db rid))"
  by (simp add: entry_ids_ok_def draw_winner_def Let_def split: sum.split)

lemma entry_ids_ok_serve_all:
  "entry_ids_ok db \<Longrightarrow> entry_ids_ok (serve_all db reqs)"
proof (induction reqs arbitrary: db)
  case Nil
  then show ?case by (simp add: serve_all_def)
next
  case (Cons q reqs)
  obtain ev rq where q: "q = (ev, rq)" by (cases q)
  have "entry_ids_ok (serve db q)"
    unfolding q using Cons.prems
    by (cases rq) (simp_all add: entry_ids_ok_create entry_ids_ok_enter
                      entry_ids_ok_reverify entry_ids_ok_draw)
  then have "entry_ids_ok (serve_all (serve db q) reqs)" by (rule Cons.IH)
  then show ?case by (simp add: serve_all_def)
qed

lemma entry_ids_distinct_reachable:
  "distinct (map oid (entry (serve_all \<lparr> lotteryround = [], entry = [], next_oid = 0 \<rparr> reqs)))"
proof -
  have "entry_ids_ok \<lparr> lotteryround = [], entry = [], next_oid = 0 \<rparr>"
    by (simp add: entry_ids_ok_def)
  then have "entry_ids_ok (serve_all \<lparr> lotteryround = [], entry = [], next_oid = 0 \<rparr> reqs)"
    by (rule entry_ids_ok_serve_all)
  then show ?thesis by (simp add: entry_ids_ok_def)
qed

text \<open>
  Claim C9. In a store whose entries have distinct identifiers (which every store reached
  from the empty one has), a successful re-verification changes exactly one entry, the one
  with this round and signature, and only its \<open>verified\<close> and \<open>updated_at\<close> fields;
  rounds and all other entries are untouched. Calling it again while the ledger answers the
  same succeeds and leaves \<open>verified\<close> as the first call set it; only \<open>updated_at\<close>
  is overwritten.
\<close>

theorem reverify_entry_idempotent:
  assumes d: "distinct (map oid (entry db))"
    and run: "reverify_entry ev db rid sig = (db1, Inr e1)"
    and same: "rpc ev' = rpc ev"
  shows "\<exists>i e2. i < length (entry db)
           \<and> round_id (entry db ! i) = rid \<and> tx_signature (entry db ! i) = sig
           \<and> e1 = (entry db ! i)\<lparr> verified := verified e1, updated_at := now_utc ev 0 \<rparr>
           \<and> db1 = db\<lparr> entry := (entry db)[i := e1] \<rparr>
           \<and> reverify_entry ev' db1 rid sig = (db1\<lparr> entry := (entry db1)[i := e2] \<rparr>, Inr e2)
           \<and> e2 = e1\<lparr> updated_at := now_utc ev' 0 \<rparr>
           \<and> verified e2 = verified e1"
proof -
  let ?xs = "entry db"
  from reverify_success_index [OF run] obtain r i v where
    g: "get_round db rid = Inr r" and i: "i < length ?xs"
    and m: "round_id (?xs ! i) = rid \<and> tx_signature (?xs ! i) = sig"
    and first: "\<forall>j<i. \<not> (round_id (?xs ! j) = rid \<and> tx_signature (?xs ! j) = sig)"
    and v: "verify_signature_on_chain (rpc ev) (network r) sig
                (Some (wallet_address (?xs ! i))) (Some (treasury_address r)) = Inr v"
    by blast
  let ?e1 = "(?xs ! i)\<lparr> verified := v, updated_at := now_utc ev 0 \<rparr>"
  let ?db1 = "db\<lparr> entry := ?xs[i := ?e1] \<rparr>"
  from reverify_at_index [OF d g i m first v] run
  have db1: "db1 = ?db1" and e1: "e1 = ?e1" by simp_all
  have ve: "verified e1 = v" by (simp add: e1)
  have "(map oid ?xs)[i := oid (?xs ! i)] = map oid ?xs"
    using i by (metis list_update_id nth_map)
  then have d1: "distinct (map oid (entry ?db1))"
    using d by (simp add: map_update)
  have g1: "get_round ?db1 rid = Inr r"
    using g by (simp add: get_round_def)
  have i1: "i < length (entry ?db1)" using i by simp
  have m1: "round_id (entry ?db1 ! i) = rid \<and> tx_signature (entry ?db1 ! i) = sig"
    using i m by simp
  have first1: "\<forall>j<i. \<not> (round_id (entry ?db1 ! j) = rid \<and> tx_signature (entry ?db1 ! j) = sig)"
    using first i by simp
  have v1: "verify_signature_on_chain (rpc ev') (network r) sig
                (Some (wallet_address (entry ?db1 ! i))) (Some (treasury_address r)) = Inr v"
    using v i by (simp add: same)
  let ?e2 = "(entry ?db1 ! i)\<lparr> verified := v, updated_at := now_utc ev' 0 \<rparr>"
  have run2: "reverify_entry ev' ?db1 rid sig = (?db1\<lparr> entry := (entry ?db1)[i := ?e2] \<rparr>, Inr ?e2)"
    by (rule reverify_at_index [OF d1 g1 i1 m1 first1 v1])
  have e2: "?e2 = e1\<lparr> updated_at := now_utc ev' 0 \<rparr>"
    using i by (simp add: e1)
  have "i < length (entry db)
           \<and> round_id (entry db ! i) = rid \<and> tx_signature (entry db ! i) = sig
           \<and> e1 = (entry db ! i)\<lparr> verified := verified e1, updated_at := now_utc ev 0 \<rparr>
           \<and> db1 = db\<lparr> entry := (entry db)[i := e1] \<rparr>
           \<and> reverify_entry ev' db1 rid sig = (db1\<lparr> entry := (entry db1)[i := ?e2] \<rparr>, Inr ?e2)
           \<and> ?e2 = e1\<lparr> updated_at := now_utc ev' 0 \<rparr>
           \<and> verified ?e2 = verified e1"
    using i m run2 e2 ve by (simp add: db1 e1)
  then show ?thesis by blast
qed

theorem reverify_entry_idempotent_witness:
  "reverify_entry
     (sample_env (\<lambda>_ _. Responds (JObj [(''result'', JObj [(''transaction'', JObj [(''message'',
         JObj [(''accountKeys'', JArr [JStr ''W2'', JStr ''TREASURY1''])])])])])) 0)
     (sample_db [sample_entry 1 ''W1'' ''SIG1'' False, sample_entry 2 ''W2'' ''SIG2'' False])
     ''R-1'' ''SIG2''
   = (sample_db [sample_entry 1 ''W1'' ''SIG1'' False,
                 (sample_entry 2 ''W2'' ''SIG2'' True)\<lparr> updated_at := 100 \<rparr>],
      Inr ((sample_entry 2 ''W2'' ''SIG2'' True)\<lparr> updated_at := 100 \<rparr>))
   \<and> (\<exists>db2 e2. reverify_entry
     ((sample_env (\<lambda>_ _. Responds (JObj [(''result'', JObj [(''transaction'', JObj [(''message'',
         JObj [(''accountKeys'', JArr [JStr ''W2'', JStr ''TREASURY1''])])])])])) 0)
        \<lparr> now_utc := (\<lambda>n. 200 + n) \<rparr>)
     (sample_db [sample_entry 1 ''W1'' ''SIG1'' False,
                 (sample_entry 2 ''W2'' ''SIG2'' True)\<lparr> updated_at := 100 \<rparr>])
     ''R-1'' ''SIG2'' = (db2, Inr e2)
     \<and> e2 = (sample_entry 2 ''W2'' ''SIG2'' True)\<lparr> updated_at := 200 \<rparr>)"
proof -
  let ?led = "\<lambda>_ _. Responds (JObj [(''result'', JObj [(''transaction'', JObj [(''message'',
         JObj [(''accountKeys'', JArr [JStr ''W2'', JStr ''TREASURY1''])])])])])"
  let ?ev = "sample_env ?led 0"
  let ?ev' = "?ev\<lparr> now_utc := (\<lambda>n. 200 + n) \<rparr>"
  let ?db = "sample_db [sample_entry 1 ''W1'' ''SIG1'' False, sample_entry 2 ''W2'' ''SIG2'' False]"
  let ?e1 = "(sample_entry 2 ''W2'' ''SIG2'' True)\<lparr> updated_at := 100 \<rparr>"
  let ?db1 = "sample_db [sample_entry 1 ''W1'' ''SIG1'' False, ?e1]"
  have d: "distinct (map oid (entry ?db))"
    by (simp add: sample_db_def sample_entry_def)
  have v: "verify_signature_on_chain ?led ''devnet'' ''SIG2'' (Some ''W2'') (Some ''TREASURY1'')
             = Inr True"
    by (simp add: verify_signature_on_chain_def verify_try_def reports_err_def
          account_checks_def account_keys_of_def absent_def)
  have h: "reverify_entry ?ev ?db ''R-1'' ''SIG2'' = (?db1, Inr ?e1)"
    by (simp add: reverify_entry_def get_round_def sample_db_def sample_round_def
          sample_entry_def sample_env_def v Let_def)
  have same: "rpc ?ev' = rpc ?ev" by simp
  from reverify_entry_idempotent [OF d h same] obtain i e2 where
    "reverify_entry ?ev' ?db1 ''R-1'' ''SIG2'' = (?db1\<lparr> entry := (entry ?db1)[i := e2] \<rparr>, Inr e2)"
    and "e2 = ?e1\<lparr> updated_at := now_utc ?ev' 0 \<rparr>"
    by blast
  then have "\<exists>db2 e2. reverify_entry ?ev' ?db1 ''R-1'' ''SIG2'' = (db2, Inr e2)
     \<and> e2 = (sample_entry 2 ''W2'' ''SIG2'' True)\<lparr> updated_at := 200 \<rparr>"
    by (simp add: sample_entry_def)
  with h show ?thesis by blast
qed

end
